theory Spec2Isabelle
  imports Main
begin

section \<open>Exceptions and outcomes\<close>

text \<open>
  The page script \<^verbatim>\<open>script.js\<close> is modelled as a shallow embedding: every function
  of the script is a HOL function on an explicit page state. A JavaScript exception is a
  value; a statement that throws keeps every mutation made before the throw, so an
  outcome carries the state in both cases.
\<close>

datatype js_error = TypeError string | SyntaxError string | LibraryError string

datatype 's outcome = Done 's | Threw js_error 's

fun state_of :: "'s outcome \<Rightarrow> 's" where
  "state_of (Done s) = s"
| "state_of (Threw e s) = s"

fun raised :: "'s outcome \<Rightarrow> js_error option" where
  "raised (Done s) = None"
| "raised (Threw e s) = Some e"

text \<open>Sequencing of statements: the rest runs only when the first part did not throw.\<close>

fun and_then :: "'s outcome \<Rightarrow> ('s \<Rightarrow> 's outcome) \<Rightarrow> 's outcome" where
  "and_then (Done s) f = f s"
| "and_then (Threw e s) f = Threw e s"

text \<open>\<^verbatim>\<open>try { body } catch (e) { handler }\<close>\<close>

fun try_catch :: "'s outcome \<Rightarrow> (js_error \<Rightarrow> 's \<Rightarrow> 's outcome) \<Rightarrow> 's outcome" where
  "try_catch (Done s) h = Done s"
| "try_catch (Threw e s) h = h e s"

section \<open>The page: document, host capabilities and mutable state\<close>

text \<open>
  Elements are identified by numbers. The document answers the three queries the script
  makes: \<^verbatim>\<open>getElementById\<close>, \<^verbatim>\<open>querySelector\<close> and (through \<^verbatim>\<open>closest\<close>) whether an
  element matches a selector.
\<close>

type_synonym node = nat

datatype target = Node node | Document | Window

record document =
  by_id :: "string \<Rightarrow> node option"
  by_selector :: "string \<Rightarrow> node option"
  el_matches :: "node \<Rightarrow> string \<Rightarrow> bool"

text \<open>
  The callbacks the script registers. The three drawer callbacks are closures over the
  \<^verbatim>\<open>menuToggle\<close> and \<^verbatim>\<open>mobileSidebar\<close> elements found when \<^verbatim>\<open>initializeMenu\<close> ran.
\<close>

datatype handler =
    ToggleMenu node node
  | CloseMenu node node
  | DelegatedClick node node
  | InitializeMap
  | OnDOMContentLoaded
  | OnLoad
  | OnReportClick

record listener =
  l_target :: target
  l_type :: string
  l_handler :: handler
  l_once :: bool

record event =
  ev_type :: string
  ev_target :: target
  ev_ancestors :: "node list"

text \<open>
  The calls \<^verbatim>\<open>initializeMap\<close> makes into the mapping library, in source order:
  \<^verbatim>\<open>L.map("map")\<close>, \<^verbatim>\<open>.setView([25.6156, 85.1152], 14)\<close>, \<^verbatim>\<open>L.tileLayer(url, options)\<close>,
  \<^verbatim>\<open>.addTo(map)\<close>, \<^verbatim>\<open>L.marker([25.6156, 85.1152])\<close>, \<^verbatim>\<open>.addTo(map)\<close>,
  \<^verbatim>\<open>marker.bindPopup("New Report: Water Leakage")\<close>, \<^verbatim>\<open>.openPopup()\<close>.
  The library is third-party code: it is a parameter that says, from the calls made so
  far, whether the next call throws and what.
\<close>

datatype lib_call =
    L_map | SetView | L_tileLayer | TileLayer_addTo
  | L_marker | Marker_addTo | BindPopup | OpenPopup

type_synonym library = "lib_call list \<Rightarrow> lib_call \<Rightarrow> js_error option"

text \<open>
  The fields of the navigation-timing entry the script reads. The number type is a
  parameter: the report is built with its subtraction, whatever the host's numbers are.
\<close>

record 'n nav_timing =
  fetchStart :: 'n
  domainLookupStart :: 'n
  domainLookupEnd :: 'n
  connectStart :: 'n
  connectEnd :: 'n
  requestStart :: 'n
  responseStart :: 'n
  responseEnd :: 'n
  domLoading :: 'n
  domComplete :: 'n
  loadEventEnd :: 'n

record 'n performance_api =
  perf_mark :: bool
  perf_measure :: bool
  navigation_entries :: "'n nav_timing list"

datatype 'n console_entry =
    Warn string js_error
  | Log string "(string \<times> 'n) list"

text \<open>
  Everything the script reads or writes. The first five fields belong to the host (the
  script only reads them); the others are written by the script or its callbacks.
\<close>

record 'n page =
  doc :: document
  ready_state :: string
  doc_hidden :: bool
  performance :: "'n performance_api option"
  leaflet :: "library option"
  class_list :: "node \<Rightarrow> string list"
  body_overflow :: string
  listeners :: "listener list"
  timers :: "(handler \<times> nat) list"
  perf_marks :: "string list"
  perf_measures :: "(string \<times> string \<times> string) list"
  console :: "'n console_entry list"
  lib_calls :: "lib_call list"
  location_href :: string
  uncaught :: "js_error list"

section \<open>Host operations used by the script\<close>

definition classList_contains :: "node \<Rightarrow> string \<Rightarrow> 'n page \<Rightarrow> bool" where
  "classList_contains n c s = (c \<in> set (class_list s n))"

definition classList_toggle :: "node \<Rightarrow> string \<Rightarrow> 'n page \<Rightarrow> 'n page" where
  "classList_toggle n c s =
     s\<lparr>class_list := (class_list s)
          (n := (if c \<in> set (class_list s n) then removeAll c (class_list s n)
                 else class_list s n @ [c]))\<rparr>"

definition classList_remove :: "node \<Rightarrow> string \<Rightarrow> 'n page \<Rightarrow> 'n page" where
  "classList_remove n c s =
     s\<lparr>class_list := (class_list s)(n := removeAll c (class_list s n))\<rparr>"

text \<open>
  \<^verbatim>\<open>addEventListener\<close> appends to the registry. (The host ignores a second registration
  of the same function object; the script never registers one twice.)
\<close>

definition addEventListener ::
  "target \<Rightarrow> string \<Rightarrow> handler \<Rightarrow> bool \<Rightarrow> 'n page \<Rightarrow> 'n page" where
  "addEventListener t ty h once s =
     s\<lparr>listeners := listeners s @
          [\<lparr>l_target = t, l_type = ty, l_handler = h, l_once = once\<rparr>]\<rparr>"

definition setTimeout :: "handler \<Rightarrow> nat \<Rightarrow> 'n page \<Rightarrow> 'n page" where
  "setTimeout h ms s = s\<lparr>timers := timers s @ [(h, ms)]\<rparr>"

definition console_warn :: "string \<Rightarrow> js_error \<Rightarrow> 'n page \<Rightarrow> 'n page" where
  "console_warn msg e s = s\<lparr>console := console s @ [Warn msg e]\<rparr>"

definition console_log :: "string \<Rightarrow> (string \<times> 'n) list \<Rightarrow> 'n page \<Rightarrow> 'n page" where
  "console_log msg obj s = s\<lparr>console := console s @ [Log msg obj]\<rparr>"

definition performance_mark :: "string \<Rightarrow> 'n page \<Rightarrow> 'n page" where
  "performance_mark name s = s\<lparr>perf_marks := perf_marks s @ [name]\<rparr>"

text \<open>\<^verbatim>\<open>performance.measure\<close> throws when one of the two named marks does not exist.\<close>

definition performance_measure ::
  "string \<Rightarrow> string \<Rightarrow> string \<Rightarrow> 'n page \<Rightarrow> 'n page outcome" where
  "performance_measure name a b s =
     (if a \<in> set (perf_marks s) \<and> b \<in> set (perf_marks s)
      then Done (s\<lparr>perf_measures := perf_measures s @ [(name, a, b)]\<rparr>)
      else Threw (SyntaxError ''The mark does not exist'') s)"

text \<open>\<^verbatim>\<open>el.closest(sel)\<close>: the first of the element and its ancestors that matches.\<close>

definition closest :: "document \<Rightarrow> node \<Rightarrow> node list \<Rightarrow> string \<Rightarrow> node option" where
  "closest d n ancestors sel = find (\<lambda>m. el_matches d m sel) (n # ancestors)"

section \<open>Navigation drawer (script.js, lines 7 to 40)\<close>

definition toggleMenu :: "node \<Rightarrow> node \<Rightarrow> 'n page \<Rightarrow> 'n page" where
  "toggleMenu menuToggle mobileSidebar s =
     (let s1 = classList_toggle menuToggle ''active'' s;
          s2 = classList_toggle mobileSidebar ''active'' s1
      in s2\<lparr>body_overflow :=
               (if classList_contains mobileSidebar ''active'' s2
                then ''hidden'' else ''auto'')\<rparr>)"

definition closeMenu :: "node \<Rightarrow> node \<Rightarrow> 'n page \<Rightarrow> 'n page" where
  "closeMenu menuToggle mobileSidebar s =
     (let s1 = classList_remove menuToggle ''active'' s;
          s2 = classList_remove mobileSidebar ''active'' s1
      in s2\<lparr>body_overflow := ''auto''\<rparr>)"

text \<open>
  The delegated listener on the document (lines 32 to 39). Its two tests are
  independent \<^verbatim>\<open>if\<close> statements. \<^verbatim>\<open>closest\<close> exists on elements only.
\<close>

definition nav_link_selector :: string where
  "nav_link_selector = ''.mobile-nav a, .mobile-auth a''"

definition delegatedClick :: "node \<Rightarrow> node \<Rightarrow> event \<Rightarrow> 'n page \<Rightarrow> 'n page outcome" where
  "delegatedClick menuToggle mobileSidebar e s =
     (case ev_target e of
        Node t \<Rightarrow>
          (let s1 = (if closest (doc s) t (ev_ancestors e) nav_link_selector \<noteq> None
                     then closeMenu menuToggle mobileSidebar s else s);
               s2 = (if t = mobileSidebar
                     then closeMenu menuToggle mobileSidebar s1 else s1)
           in Done s2)
      | _ \<Rightarrow> Threw (TypeError ''e.target.closest is not a function'') s)"

definition initializeMenu :: "'n page \<Rightarrow> 'n page outcome" where
  "initializeMenu s =
     (let menuToggle = by_id (doc s) ''menuToggle'';
          mobileSidebar = by_id (doc s) ''mobileSidebar'';
          closeBtn = by_id (doc s) ''closeBtn''
      in case menuToggle of
           None \<Rightarrow> Done s
         | Some mt \<Rightarrow>
            (case mobileSidebar of
               None \<Rightarrow> Done s
             | Some sb \<Rightarrow>
                (let s1 = addEventListener (Node mt) ''click'' (ToggleMenu mt sb) False s
                 in case closeBtn of
                      None \<Rightarrow>
                        Threw (TypeError ''Cannot read properties of null (reading addEventListener)'') s1
                    | Some cb \<Rightarrow>
                        (let s2 = addEventListener (Node cb) ''click'' (CloseMenu mt sb) False s1
                         in Done (addEventListener Document ''click''
                                    (DelegatedClick mt sb) False s2)))))"

section \<open>Map initialisation (lines 43 to 58)\<close>

definition map_construction :: "lib_call list" where
  "map_construction =
     [L_map, SetView, L_tileLayer, TileLayer_addTo, L_marker, Marker_addTo, BindPopup, OpenPopup]"

text \<open>The body of the \<^verbatim>\<open>try\<close> block: the calls in order, stopping at the first throw.\<close>

fun run_library :: "library \<Rightarrow> lib_call list \<Rightarrow> 'n page \<Rightarrow> 'n page outcome" where
  "run_library lib [] s = Done s"
| "run_library lib (c # cs) s =
     (let s1 = s\<lparr>lib_calls := lib_calls s @ [c]\<rparr>
      in case lib (lib_calls s) c of
           Some e \<Rightarrow> Threw e s1
         | None \<Rightarrow> run_library lib cs s1)"

definition initializeMap :: "'n page \<Rightarrow> 'n page outcome" where
  "initializeMap s =
     (case leaflet s of
        None \<Rightarrow> Done s
      | Some lib \<Rightarrow>
         (case by_id (doc s) ''map'' of
            None \<Rightarrow> Done s
          | Some m \<Rightarrow>
             try_catch (run_library lib map_construction s)
               (\<lambda>e s'. Done (console_warn ''Map initialization error:'' e s'))))"

section \<open>Deferred initialisation (lines 61 to 76)\<close>

definition onDOMContentLoaded :: "'n page \<Rightarrow> 'n page outcome" where
  "onDOMContentLoaded s =
     and_then (initializeMenu s) (\<lambda>s1.
       Done (if doc_hidden s1
             then addEventListener Document ''visibilitychange'' InitializeMap True s1
             else setTimeout InitializeMap 500 s1))"

definition defer_initialization :: "'n page \<Rightarrow> 'n page outcome" where
  "defer_initialization s =
     (if ready_state s = ''loading''
      then Done (addEventListener Document ''DOMContentLoaded'' OnDOMContentLoaded False s)
      else and_then (initializeMenu s) (\<lambda>s1. Done (setTimeout InitializeMap 500 s1)))"

section \<open>Load-timing report (lines 2 to 4 and 79 to 101)\<close>

definition mark_app_start :: "'n page \<Rightarrow> 'n page outcome" where
  "mark_app_start s =
     Done (case performance s of
             None \<Rightarrow> s
           | Some p \<Rightarrow> if perf_mark p then performance_mark ''app-start'' s else s)"

definition performance_metrics :: "('n::minus) nav_timing \<Rightarrow> (string \<times> 'n) list" where
  "performance_metrics perfData =
     [(''DNS'', domainLookupEnd perfData - domainLookupStart perfData),
      (''TCP'', connectEnd perfData - connectStart perfData),
      (''Request'', responseStart perfData - requestStart perfData),
      (''Response'', responseEnd perfData - responseStart perfData),
      (''DOM Processing'', domComplete perfData - domLoading perfData),
      (''Total Load Time'', loadEventEnd perfData - fetchStart perfData)]"

definition onLoad :: "('n::minus) page \<Rightarrow> 'n page outcome" where
  "onLoad s =
     (case performance s of
        None \<Rightarrow> Threw (TypeError ''performance is not defined'') s
      | Some p \<Rightarrow>
         if \<not> perf_mark p then Threw (TypeError ''performance.mark is not a function'') s
         else
           (let s1 = performance_mark ''app-end'' s
            in if \<not> perf_measure p
               then Threw (TypeError ''performance.measure is not a function'') s1
               else and_then (performance_measure ''app-duration'' ''app-start'' ''app-end'' s1)
                      (\<lambda>s2. case navigation_entries p of
                               [] \<Rightarrow> Done s2
                             | perfData # rest \<Rightarrow>
                                 Done (console_log ''Performance Metrics:''
                                         (performance_metrics perfData) s2))))"

definition wire_metrics :: "'n page \<Rightarrow> 'n page outcome" where
  "wire_metrics s =
     Done (case performance s of
             None \<Rightarrow> s
           | Some p \<Rightarrow>
               if perf_mark p \<and> perf_measure p
               then addEventListener Window ''load'' OnLoad False s else s)"

section \<open>Report button (lines 106 to 110)\<close>

definition onReportClick :: "'n page \<Rightarrow> 'n page" where
  "onReportClick s = s\<lparr>location_href := ''/html/report.html''\<rparr>"

definition wire_report_btn :: "'n page \<Rightarrow> 'n page outcome" where
  "wire_report_btn s =
     (case by_selector (doc s) ''.issue-report-btn'' of
        None \<Rightarrow> Threw (TypeError ''Cannot read properties of null (reading addEventListener)'') s
      | Some reportBtn \<Rightarrow>
          Done (addEventListener (Node reportBtn) ''click'' OnReportClick False s))"

section \<open>The script as a whole\<close>

text \<open>
  The top-level statements in source order. \<open>script_components\<close> is everything before
  the report button; an uncaught exception ends the evaluation of the script.
\<close>

definition script_components :: "'n page \<Rightarrow> 'n page outcome" where
  "script_components s =
     and_then (and_then (mark_app_start s) defer_initialization) wire_metrics"

definition script :: "'n page \<Rightarrow> 'n page outcome" where
  "script s = and_then (script_components s) wire_report_btn"

section \<open>Event dispatch\<close>

fun invoke :: "handler \<Rightarrow> event \<Rightarrow> ('n::minus) page \<Rightarrow> 'n page outcome" where
  "invoke (ToggleMenu mt sb) e s = Done (toggleMenu mt sb s)"
| "invoke (CloseMenu mt sb) e s = Done (closeMenu mt sb s)"
| "invoke (DelegatedClick mt sb) e s = delegatedClick mt sb e s"
| "invoke InitializeMap e s = initializeMap s"
| "invoke OnDOMContentLoaded e s = onDOMContentLoaded s"
| "invoke OnLoad e s = onLoad s"
| "invoke OnReportClick e s = Done (onReportClick s)"

text \<open>
  A listener registered with \<^verbatim>\<open>once\<close> is removed before its callback runs. An exception
  in a callback is reported by the host and does not stop the dispatch.
\<close>

definition run_listener :: "event \<Rightarrow> ('n::minus) page \<Rightarrow> listener \<Rightarrow> 'n page" where
  "run_listener e s l =
     (let s0 = (if l_once l then s\<lparr>listeners := remove1 l (listeners s)\<rparr> else s)
      in case invoke (l_handler l) e s0 of
           Done s1 \<Rightarrow> s1
         | Threw err s1 \<Rightarrow> s1\<lparr>uncaught := uncaught s1 @ [err]\<rparr>)"

definition listeners_at :: "target \<Rightarrow> string \<Rightarrow> 'n page \<Rightarrow> listener list" where
  "listeners_at t ty s = filter (\<lambda>l. l_target l = t \<and> l_type l = ty) (listeners s)"

definition dispatch_at :: "event \<Rightarrow> ('n::minus) page \<Rightarrow> target \<Rightarrow> 'n page" where
  "dispatch_at e s t = foldl (run_listener e) s (listeners_at t (ev_type e) s)"

text \<open>Bubbling: the target, its ancestors innermost first, the document, the window.\<close>

definition propagation_path :: "event \<Rightarrow> target list" where
  "propagation_path e =
     (case ev_target e of
        Node t \<Rightarrow> Node t # map Node (ev_ancestors e) @ [Document, Window]
      | Document \<Rightarrow> [Document, Window]
      | Window \<Rightarrow> [Window])"

definition dispatchEvent :: "event \<Rightarrow> ('n::minus) page \<Rightarrow> 'n page" where
  "dispatchEvent e s = foldl (dispatch_at e) s (propagation_path e)"

definition click_on :: "node \<Rightarrow> node list \<Rightarrow> event" where
  "click_on t ancestors = \<lparr>ev_type = ''click'', ev_target = Node t, ev_ancestors = ancestors\<rparr>"

section \<open>Observations on the drawer\<close>

text \<open>
  The scroll lock is the \<^verbatim>\<open>overflow\<close> style of the body being \<^verbatim>\<open>hidden\<close>; the drawer
  is open when the drawer element carries the class \<^verbatim>\<open>active\<close>, the test the script
  itself makes (line 17).
\<close>

definition scroll_locked :: "'n page \<Rightarrow> bool" where
  "scroll_locked s = (body_overflow s = ''hidden'')"

definition drawer_open :: "node \<Rightarrow> 'n page \<Rightarrow> bool" where
  "drawer_open mobileSidebar s = classList_contains mobileSidebar ''active'' s"

definition drawer_closed :: "node \<Rightarrow> node \<Rightarrow> 'n page \<Rightarrow> bool" where
  "drawer_closed menuToggle mobileSidebar s =
     (\<not> classList_contains menuToggle ''active'' s \<and> \<not> drawer_open mobileSidebar s
      \<and> \<not> scroll_locked s)"

text \<open>The invariant of the data model: the scroll lock is set iff the drawer is open.\<close>

definition lock_invariant :: "node \<Rightarrow> 'n page \<Rightarrow> bool" where
  "lock_invariant mobileSidebar s = (scroll_locked s = drawer_open mobileSidebar s)"

text \<open>
  The listeners \<open>initializeMenu\<close> registers, in source order (lines 28, 29 and 32), and
  the callbacks the script ever registers for clicks.
\<close>

definition drawer_listeners :: "node \<Rightarrow> node \<Rightarrow> node \<Rightarrow> listener list" where
  "drawer_listeners mt sb cb =
     [\<lparr>l_target = Node mt, l_type = ''click'', l_handler = ToggleMenu mt sb, l_once = False\<rparr>,
      \<lparr>l_target = Node cb, l_type = ''click'', l_handler = CloseMenu mt sb, l_once = False\<rparr>,
      \<lparr>l_target = Document, l_type = ''click'', l_handler = DelegatedClick mt sb, l_once = False\<rparr>]"

definition page_click_handler :: "node \<Rightarrow> node \<Rightarrow> handler \<Rightarrow> bool" where
  "page_click_handler mt sb h =
     (h = ToggleMenu mt sb \<or> h = CloseMenu mt sb \<or> h = DelegatedClick mt sb \<or> h = OnReportClick)"

text \<open>
  A page on which the drawer is wired: its three listeners are registered, and every
  click listener of the registry is one of the script's.
\<close>

definition drawer_wired :: "node \<Rightarrow> node \<Rightarrow> node \<Rightarrow> 'n page \<Rightarrow> bool" where
  "drawer_wired mt sb cb s =
     (set (drawer_listeners mt sb cb) \<subseteq> set (listeners s) \<and>
      (\<forall>l \<in> set (listeners s). l_type l = ''click'' \<longrightarrow> page_click_handler mt sb (l_handler l)))"

text \<open>
  The drawer actions, as click events: a click on (or inside) the menu trigger, on (or
  inside) the close trigger, on an element for which \<^verbatim>\<open>closest\<close> finds a navigation link
  of the drawer, or on the drawer element itself (its background).
\<close>

definition drawer_action :: "node \<Rightarrow> node \<Rightarrow> node \<Rightarrow> document \<Rightarrow> event \<Rightarrow> bool" where
  "drawer_action mt sb cb d e =
     (ev_type e = ''click'' \<and>
      (case ev_target e of
         Node t \<Rightarrow>
           mt \<in> set (t # ev_ancestors e) \<or>
           cb \<in> set (t # ev_ancestors e) \<or>
           closest d t (ev_ancestors e) nav_link_selector \<noteq> None \<or>
           t = sb
       | _ \<Rightarrow> False))"

text \<open>The page after each event of a sequence.\<close>

fun states_after :: "event list \<Rightarrow> ('n::minus) page \<Rightarrow> 'n page list" where
  "states_after [] s = []"
| "states_after (e # es) s = dispatchEvent e s # states_after es (dispatchEvent e s)"

text \<open>
  Two notions used in the proofs: a page that is wired and has the document \<open>d\<close>, and
  the page on which a callback starts (a one-shot listener is removed first).
\<close>

definition stage :: "node \<Rightarrow> node \<Rightarrow> node \<Rightarrow> document \<Rightarrow> 'n page \<Rightarrow> bool" where
  "stage mt sb cb d s = (drawer_wired mt sb cb s \<and> doc s = d)"

definition before_callback :: "listener \<Rightarrow> 'n page \<Rightarrow> 'n page" where
  "before_callback l s = (if l_once l then s\<lparr>listeners := remove1 l (listeners s)\<rparr> else s)"

text \<open>The callbacks whose body calls \<^verbatim>\<open>closeMenu\<close>, and the listeners that carry one.\<close>

fun calls_closeMenu :: "handler \<Rightarrow> bool" where
  "calls_closeMenu (CloseMenu mt sb) = True"
| "calls_closeMenu (DelegatedClick mt sb) = True"
| "calls_closeMenu h = False"

definition dismissal_listeners :: "'n page \<Rightarrow> listener list" where
  "dismissal_listeners s = filter (\<lambda>l. calls_closeMenu (l_handler l)) (listeners s)"

text \<open>The same page with another set of elements matching the selectors.\<close>

definition with_links :: "(node \<Rightarrow> string \<Rightarrow> bool) \<Rightarrow> 'n page \<Rightarrow> 'n page" where
  "with_links m s = s\<lparr>doc := (doc s)\<lparr>el_matches := m\<rparr>\<rparr>"

section \<open>Observations on the scheduling of the map\<close>

definition dom_content_loaded :: event where
  "dom_content_loaded =
     \<lparr>ev_type = ''DOMContentLoaded'', ev_target = Document, ev_ancestors = []\<rparr>"

definition timer_armed :: "'n page \<Rightarrow> bool" where
  "timer_armed s = ((InitializeMap, 500) \<in> set (timers s))"

definition visibility_armed :: "'n page \<Rightarrow> bool" where
  "visibility_armed s =
     (\<exists>l \<in> set (listeners s). l_type l = ''visibilitychange'' \<and> l_handler l = InitializeMap)"

section \<open>Sample pages\<close>

text \<open>
  Concrete pages on which the properties below are exercised: a home page with every
  element the script looks up (two links inside the drawer, elements 6 and 7), and the
  same page with some of the elements left out.
\<close>

definition home_document :: document where
  "home_document =
     \<lparr>by_id = (\<lambda>i. if i = ''menuToggle'' then Some 1
                    else if i = ''mobileSidebar'' then Some 2
                    else if i = ''closeBtn'' then Some 3
                    else if i = ''map'' then Some 4 else None),
      by_selector = (\<lambda>sel. if sel = ''.issue-report-btn'' then Some 5 else None),
      el_matches = (\<lambda>n sel. (n = 6 \<or> n = 7) \<and> sel = nav_link_selector)\<rparr>"

definition sample_timing :: "int nav_timing" where
  "sample_timing =
     \<lparr>fetchStart = 2, domainLookupStart = 5, domainLookupEnd = 9, connectStart = 9,
      connectEnd = 20, requestStart = 21, responseStart = 48, responseEnd = 60,
      domLoading = 55, domComplete = 300, loadEventEnd = 0\<rparr>"

definition fresh_page :: "document \<Rightarrow> string \<Rightarrow> bool \<Rightarrow> library option \<Rightarrow> int page" where
  "fresh_page d rs hid lib =
     \<lparr>doc = d, ready_state = rs, doc_hidden = hid,
      performance = Some \<lparr>perf_mark = True, perf_measure = True,
                          navigation_entries = [sample_timing]\<rparr>,
      leaflet = lib,
      class_list = (\<lambda>n. []), body_overflow = [],
      listeners = [], timers = [], perf_marks = [], perf_measures = [],
      console = [], lib_calls = [], location_href = ''/index.html'', uncaught = []\<rparr>"

definition working_library :: library where
  "working_library hist c = None"

definition failing_tiles :: library where
  "failing_tiles hist c = (if c = L_tileLayer then Some (LibraryError ''tiles'') else None)"

text \<open>A document from which the element with one identifier has been taken out.\<close>

definition without_id :: "string \<Rightarrow> document \<Rightarrow> document" where
  "without_id i d = d\<lparr>by_id := (by_id d)(i := None)\<rparr>"

definition no_drawer :: document where
  "no_drawer = home_document\<lparr>by_id := (\<lambda>i. if i = ''map'' then Some 4 else None)\<rparr>"

definition no_menu_trigger :: document where
  "no_menu_trigger = without_id ''menuToggle'' home_document"

definition no_sidebar :: document where
  "no_sidebar = without_id ''mobileSidebar'' home_document"

definition no_close_button :: document where
  "no_close_button = without_id ''closeBtn'' home_document"

definition no_map :: document where
  "no_map = without_id ''map'' home_document"

definition no_report_button :: document where
  "no_report_button = home_document\<lparr>by_selector := (\<lambda>sel. None)\<rparr>"

definition home_page :: "int page" where
  "home_page = fresh_page home_document ''complete'' False (Some working_library)"

definition home_wired :: "int page" where
  "home_wired = state_of (script (fresh_page home_document ''complete'' False None))"

definition drawer_session :: "event list" where
  "drawer_session =
     [click_on 1 [0], click_on 1 [0], click_on 3 [2, 0], click_on 2 [0],
      click_on 1 [0], click_on 7 [2, 0]]"

definition no_close_loading :: "int page" where
  "no_close_loading = fresh_page no_close_button ''loading'' True (Some working_library)"

definition no_close_complete :: "int page" where
  "no_close_complete = fresh_page no_close_button ''complete'' False (Some working_library)"

definition no_report_page :: "int page" where
  "no_report_page = fresh_page no_report_button ''complete'' False (Some working_library)"

definition no_report_loading :: "int page" where
  "no_report_loading = fresh_page no_report_button ''loading'' False (Some working_library)"

section \<open>Properties\<close>

subsection \<open>The navigation drawer\<close>

text \<open>
  C6. If the menu trigger or the drawer element is not in the document,
  \<open>initializeMenu\<close> returns normally and leaves the page, its listener registry
  included, exactly as it was.
\<close>

theorem initializeMenu_inert:
  "by_id (doc s) ''menuToggle'' = None \<or> by_id (doc s) ''mobileSidebar'' = None
   \<Longrightarrow> initializeMenu s = Done s"
  by (auto simp: initializeMenu_def split: option.splits)

theorem initializeMenu_inert_witness:
  "by_id (doc (fresh_page no_menu_trigger ''complete'' False None)) ''menuToggle'' = None \<and>
   by_id (doc (fresh_page no_menu_trigger ''complete'' False None)) ''mobileSidebar'' = Some 2 \<and>
   initializeMenu (fresh_page no_menu_trigger ''complete'' False None) =
     Done (fresh_page no_menu_trigger ''complete'' False None) \<and>
   by_id (doc (fresh_page no_sidebar ''complete'' False None)) ''menuToggle'' = Some 1 \<and>
   by_id (doc (fresh_page no_sidebar ''complete'' False None)) ''mobileSidebar'' = None \<and>
   initializeMenu (fresh_page no_sidebar ''complete'' False None) =
     Done (fresh_page no_sidebar ''complete'' False None) \<and>
   listeners (state_of (initializeMenu (fresh_page no_drawer ''complete'' False None))) = []"
proof -
  let ?a = "fresh_page no_menu_trigger ''complete'' False None"
  let ?b = "fresh_page no_sidebar ''complete'' False None"
  let ?c = "fresh_page no_drawer ''complete'' False None"
  have a: "by_id (doc ?a) ''menuToggle'' = None" "by_id (doc ?a) ''mobileSidebar'' = Some 2"
    and b: "by_id (doc ?b) ''menuToggle'' = Some 1" "by_id (doc ?b) ''mobileSidebar'' = None"
    and c: "by_id (doc ?c) ''menuToggle'' = None" "listeners ?c = []"
    by (simp_all add: fresh_page_def no_menu_trigger_def no_sidebar_def no_drawer_def
        without_id_def home_document_def)
  from initializeMenu_inert [of ?a] initializeMenu_inert [of ?b] initializeMenu_inert [of ?c]
    a b c
  show ?thesis by simp
qed

text \<open>
  C10. With the menu trigger and the drawer present and the close button absent,
  \<open>initializeMenu\<close> throws a TypeError when it wires the close button. The click
  listener of the menu trigger is registered by then and stays registered: the
  controller is partially wired, since the guard tests two of the three elements.
\<close>

theorem initializeMenu_partially_wired:
  assumes "by_id (doc s) ''menuToggle'' = Some mt"
    and "by_id (doc s) ''mobileSidebar'' = Some sb"
    and "by_id (doc s) ''closeBtn'' = None"
  shows "\<exists>msg. initializeMenu s =
           Threw (TypeError msg)
             (s\<lparr>listeners := listeners s @
                  [\<lparr>l_target = Node mt, l_type = ''click'',
                    l_handler = ToggleMenu mt sb, l_once = False\<rparr>]\<rparr>)"
  using assms by (simp add: initializeMenu_def addEventListener_def)

theorem initializeMenu_partially_wired_witness:
  "by_id (doc (fresh_page no_close_button ''complete'' False None)) ''menuToggle'' = Some 1 \<and>
   by_id (doc (fresh_page no_close_button ''complete'' False None)) ''mobileSidebar'' = Some 2 \<and>
   by_id (doc (fresh_page no_close_button ''complete'' False None)) ''closeBtn'' = None \<and>
   (\<exists>msg. initializeMenu (fresh_page no_close_button ''complete'' False None) =
      Threw (TypeError msg)
        ((fresh_page no_close_button ''complete'' False None)
           \<lparr>listeners :=
              [\<lparr>l_target = Node 1, l_type = ''click'',
                l_handler = ToggleMenu 1 2, l_once = False\<rparr>]\<rparr>))"
proof -
  let ?s = "fresh_page no_close_button ''complete'' False None"
  have a: "by_id (doc ?s) ''menuToggle'' = Some 1"
    and b: "by_id (doc ?s) ''mobileSidebar'' = Some 2"
    and c: "by_id (doc ?s) ''closeBtn'' = None"
    and d: "listeners ?s = []"
    by (simp_all add: fresh_page_def no_close_button_def without_id_def home_document_def)
  from initializeMenu_partially_wired [OF a b c] a b c d show ?thesis by simp
qed

text \<open>
  C9. From the closed drawer (neither element marked active, scroll lock clear), two
  calls of \<open>toggleMenu\<close> give the closed drawer again, with the scroll lock clear and
  the class lists as they were; when the body's overflow was \<^verbatim>\<open>auto\<close>, the page is
  exactly the one before.
\<close>

theorem toggle_twice_from_closed:
  assumes "drawer_closed mt sb s"
  shows "drawer_closed mt sb (toggleMenu mt sb (toggleMenu mt sb s)) \<and>
         class_list (toggleMenu mt sb (toggleMenu mt sb s)) = class_list s \<and>
         (body_overflow s = ''auto'' \<longrightarrow> toggleMenu mt sb (toggleMenu mt sb s) = s)"
  using assms
  by (auto simp: drawer_closed_def drawer_open_def scroll_locked_def toggleMenu_def
      classList_toggle_def classList_contains_def Let_def fun_eq_iff)

theorem toggle_twice_from_closed_witness:
  "drawer_closed 1 2 (fresh_page home_document ''complete'' False None) \<and>
   drawer_open 2 (toggleMenu 1 2 (fresh_page home_document ''complete'' False None)) \<and>
   scroll_locked (toggleMenu 1 2 (fresh_page home_document ''complete'' False None)) \<and>
   drawer_closed 1 2
     (toggleMenu 1 2 (toggleMenu 1 2 (fresh_page home_document ''complete'' False None))) \<and>
   drawer_closed 1 2 (closeMenu 1 2 (fresh_page home_document ''complete'' False None)) \<and>
   body_overflow (closeMenu 1 2 (fresh_page home_document ''complete'' False None)) = ''auto'' \<and>
   toggleMenu 1 2 (toggleMenu 1 2 (closeMenu 1 2 (fresh_page home_document ''complete'' False None)))
     = closeMenu 1 2 (fresh_page home_document ''complete'' False None)"
proof -
  let ?s = "fresh_page home_document ''complete'' False None"
  let ?c = "closeMenu 1 2 ?s"
  have a: "drawer_closed 1 2 ?s"
    by (simp add: drawer_closed_def drawer_open_def scroll_locked_def classList_contains_def
        fresh_page_def)
  have b: "drawer_open 2 (toggleMenu 1 2 ?s) \<and> scroll_locked (toggleMenu 1 2 ?s)"
    by (simp add: drawer_open_def scroll_locked_def classList_contains_def toggleMenu_def
        classList_toggle_def fresh_page_def)
  have c: "drawer_closed 1 2 ?c" and d: "body_overflow ?c = ''auto''"
    by (simp_all add: drawer_closed_def drawer_open_def scroll_locked_def
        classList_contains_def closeMenu_def classList_remove_def fresh_page_def)
  from toggle_twice_from_closed [OF a] toggle_twice_from_closed [OF c] a b c d
  show ?thesis by simp
qed

text \<open>
  With the three elements present \<open>initializeMenu\<close> registers its three listeners and
  returns; on a page whose click listeners are the script's, the drawer is then wired.
\<close>

lemma initializeMenu_wired:
  assumes "by_id (doc s) ''menuToggle'' = Some mt"
    and "by_id (doc s) ''mobileSidebar'' = Some sb"
    and "by_id (doc s) ''closeBtn'' = Some cb"
  shows "initializeMenu s = Done (s\<lparr>listeners := listeners s @ drawer_listeners mt sb cb\<rparr>)"
  using assms by (simp add: initializeMenu_def addEventListener_def drawer_listeners_def)

lemma initializeMenu_establishes_wiring:
  assumes "by_id (doc s) ''menuToggle'' = Some mt"
    and "by_id (doc s) ''mobileSidebar'' = Some sb"
    and "by_id (doc s) ''closeBtn'' = Some cb"
    and "\<forall>l \<in> set (listeners s). l_type l = ''click'' \<longrightarrow> page_click_handler mt sb (l_handler l)"
  shows "drawer_wired mt sb cb (state_of (initializeMenu s))"
  using assms(4)
  by (auto simp: initializeMenu_wired [OF assms(1-3)] drawer_wired_def drawer_listeners_def
      page_click_handler_def)

text \<open>
  A fold keeps what each step keeps, and a property that one step establishes and the
  later steps keep holds at the end.
\<close>

lemma foldl_preserves:
  assumes "\<And>s x. x \<in> set xs \<Longrightarrow> W s \<Longrightarrow> W (f s x)" and "W s"
  shows "W (foldl f s xs)"
  using assms by (induction xs arbitrary: s) auto

lemma foldl_establishes:
  assumes pres: "\<And>s x. x \<in> set xs \<Longrightarrow> W s \<Longrightarrow> W (f s x)"
    and inv: "\<And>s x. x \<in> set xs \<Longrightarrow> W s \<Longrightarrow> I s \<Longrightarrow> I (f s x)"
    and mem: "x0 \<in> set xs" and est: "\<And>s. W s \<Longrightarrow> I (f s x0)" and start: "W s"
  shows "I (foldl f s xs)"
proof -
  from mem obtain ys zs where xs: "xs = ys @ x0 # zs"
    by (auto simp: in_set_conv_decomp)
  have W1: "W (foldl f s ys)"
    using pres start by (intro foldl_preserves [of ys W f s]) (simp_all add: xs)
  then have W2: "W (f (foldl f s ys) x0)" using pres mem by blast
  have I2: "I (f (foldl f s ys) x0)" using est W1 by blast
  have "W (foldl f t zs) \<and> I (foldl f t zs)" if "W t" "I t" for t
    using pres inv that
    by (intro foldl_preserves [of zs "\<lambda>u. W u \<and> I u" f t]) (simp_all add: xs)
  from this [OF W2 I2] show ?thesis by (simp add: xs)
qed

text \<open>\<open>toggleMenu\<close> and \<open>closeMenu\<close> each establish the invariant, from any page.\<close>

lemma toggleMenu_establishes: "lock_invariant sb (toggleMenu mt sb s)"
  by (simp add: lock_invariant_def scroll_locked_def drawer_open_def toggleMenu_def Let_def
      classList_contains_def)

lemma closeMenu_establishes: "lock_invariant sb (closeMenu mt sb s)"
  by (simp add: lock_invariant_def scroll_locked_def drawer_open_def closeMenu_def Let_def
      classList_contains_def classList_remove_def)

lemma toggleMenu_frame [simp]:
  "listeners (toggleMenu mt sb s) = listeners s" "doc (toggleMenu mt sb s) = doc s"
  by (simp_all add: toggleMenu_def Let_def classList_toggle_def)

lemma closeMenu_frame [simp]:
  "listeners (closeMenu mt sb s) = listeners s" "doc (closeMenu mt sb s) = doc s"
  by (simp_all add: closeMenu_def Let_def classList_remove_def)

text \<open>What a callback of the page does on a click, as far as the drawer is concerned.\<close>

lemma click_handler_frame:
  assumes "page_click_handler mt sb h"
  shows "listeners (state_of (invoke h e s)) = listeners s"
    and "doc (state_of (invoke h e s)) = doc s"
  using assms
  by (auto simp: page_click_handler_def delegatedClick_def onReportClick_def Let_def
      split: target.splits)

lemma delegatedClick_preserves:
  "lock_invariant sb s \<Longrightarrow> lock_invariant sb (state_of (delegatedClick mt sb e s))"
  by (simp add: delegatedClick_def Let_def closeMenu_establishes split: target.splits)

lemma delegatedClick_establishes:
  assumes "ev_target e = Node t"
    and "closest (doc s) t (ev_ancestors e) nav_link_selector \<noteq> None \<or> t = sb"
  shows "lock_invariant sb (state_of (delegatedClick mt sb e s))"
  using assms by (auto simp: delegatedClick_def Let_def closeMenu_establishes)

lemma onReportClick_preserves:
  "lock_invariant sb s \<Longrightarrow> lock_invariant sb (onReportClick s)"
  by (simp add: lock_invariant_def scroll_locked_def drawer_open_def classList_contains_def
      onReportClick_def)

lemma click_handler_preserves:
  assumes "page_click_handler mt sb h" and "lock_invariant sb s"
  shows "lock_invariant sb (state_of (invoke h e s))"
  using assms unfolding page_click_handler_def
  by (elim disjE)
    (simp_all add: toggleMenu_establishes closeMenu_establishes delegatedClick_preserves
      onReportClick_preserves)

text \<open>
  The same for a whole listener: the removal of a one-shot listener and the report of an
  uncaught exception touch neither the class lists nor the style of the body.
\<close>

lemma lock_invariant_frame [simp]:
  "lock_invariant sb (s\<lparr>uncaught := u\<rparr>) = lock_invariant sb s"
  "lock_invariant sb (s\<lparr>listeners := ls\<rparr>) = lock_invariant sb s"
  by (simp_all add: lock_invariant_def scroll_locked_def drawer_open_def classList_contains_def)

lemma run_listener_unfold:
  "run_listener e s l =
     (case invoke (l_handler l) e (before_callback l s) of
        Done s1 \<Rightarrow> s1
      | Threw err s1 \<Rightarrow> s1\<lparr>uncaught := uncaught s1 @ [err]\<rparr>)"
  by (simp add: run_listener_def before_callback_def Let_def)

lemma run_listener_lock:
  "lock_invariant sb (run_listener e s l) =
   lock_invariant sb (state_of (invoke (l_handler l) e (before_callback l s)))"
  by (cases "invoke (l_handler l) e (before_callback l s)")
    (simp_all add: run_listener_unfold)

lemma run_listener_preserves:
  assumes "page_click_handler mt sb (l_handler l)" and "lock_invariant sb s"
  shows "lock_invariant sb (run_listener e s l)"
proof -
  have "lock_invariant sb (before_callback l s)"
    using assms(2) by (simp add: before_callback_def)
  with assms(1) show ?thesis
    by (simp only: run_listener_lock click_handler_preserves)
qed

lemma before_callback_stage:
  assumes "stage mt sb cb d s"
  shows "stage mt sb cb d (before_callback l s)"
proof (cases "l_once l")
  case False
  with assms show ?thesis by (simp add: before_callback_def)
next
  case True
  then have notin: "l \<notin> set (drawer_listeners mt sb cb)"
    by (auto simp: drawer_listeners_def)
  have "set (drawer_listeners mt sb cb) \<subseteq> set (remove1 l (listeners s))"
  proof
    fix k assume k: "k \<in> set (drawer_listeners mt sb cb)"
    with notin have "k \<noteq> l" by blast
    moreover from k assms have "k \<in> set (listeners s)"
      by (auto simp: stage_def drawer_wired_def)
    ultimately show "k \<in> set (remove1 l (listeners s))" by (simp add: in_set_remove1)
  qed
  moreover have "\<forall>k \<in> set (remove1 l (listeners s)).
      l_type k = ''click'' \<longrightarrow> page_click_handler mt sb (l_handler k)"
    using assms by (auto simp: stage_def drawer_wired_def dest: notin_set_remove1)
  ultimately show ?thesis
    using assms True by (simp add: before_callback_def stage_def drawer_wired_def)
qed

lemma run_listener_stage:
  assumes "page_click_handler mt sb (l_handler l)" and "stage mt sb cb d s"
  shows "stage mt sb cb d (run_listener e s l)"
proof -
  let ?s0 = "before_callback l s"
  let ?s1 = "state_of (invoke (l_handler l) e ?s0)"
  have "stage mt sb cb d ?s0" using assms(2) by (rule before_callback_stage)
  then have "stage mt sb cb d ?s1"
    using click_handler_frame [OF assms(1), of e ?s0]
    by (simp add: stage_def drawer_wired_def)
  moreover have "listeners (run_listener e s l) = listeners ?s1"
    and "doc (run_listener e s l) = doc ?s1"
    by (cases "invoke (l_handler l) e ?s0"; simp add: run_listener_unfold)+
  ultimately show ?thesis by (simp add: stage_def drawer_wired_def)
qed

text \<open>Dispatch at one target of the propagation path.\<close>

lemma snapshot_click_handlers:
  assumes "stage mt sb cb d s" and "l \<in> set (listeners_at t ''click'' s)"
  shows "page_click_handler mt sb (l_handler l)"
  using assms by (auto simp: stage_def drawer_wired_def listeners_at_def)

lemma dispatch_at_stage:
  fixes s :: "('n::minus) page"
  assumes "ev_type e = ''click''" and "stage mt sb cb d s"
  shows "stage mt sb cb d (dispatch_at e s t)"
  unfolding dispatch_at_def
proof (rule foldl_preserves [of _ "stage mt sb cb d"])
  fix u :: "'n page" and l
  assume "l \<in> set (listeners_at t (ev_type e) s)" and "stage mt sb cb d u"
  then show "stage mt sb cb d (run_listener e u l)"
    using assms snapshot_click_handlers [of mt sb cb d s l t] by (simp add: run_listener_stage)
qed (rule assms(2))

lemma dispatch_at_preserves:
  fixes s :: "('n::minus) page"
  assumes "ev_type e = ''click''" and "stage mt sb cb d s" and "lock_invariant sb s"
  shows "lock_invariant sb (dispatch_at e s t)"
proof -
  have "stage mt sb cb d (dispatch_at e s t) \<and> lock_invariant sb (dispatch_at e s t)"
    unfolding dispatch_at_def
  proof (rule foldl_preserves [of _ "\<lambda>u. stage mt sb cb d u \<and> lock_invariant sb u"])
    fix u :: "'n page" and l
    assume l: "l \<in> set (listeners_at t (ev_type e) s)"
      and u: "stage mt sb cb d u \<and> lock_invariant sb u"
    from l assms have "page_click_handler mt sb (l_handler l)"
      using snapshot_click_handlers [of mt sb cb d s l t] by simp
    with u show "stage mt sb cb d (run_listener e u l) \<and> lock_invariant sb (run_listener e u l)"
      by (simp add: run_listener_stage run_listener_preserves)
  qed (use assms in simp)
  then show ?thesis ..
qed

lemma dispatch_at_establishes:
  fixes s :: "('n::minus) page"
  assumes click: "ev_type e = ''click''" and st: "stage mt sb cb d s"
    and mem: "l \<in> set (listeners_at t ''click'' s)"
    and est: "\<And>u :: 'n page. stage mt sb cb d u \<Longrightarrow> lock_invariant sb (run_listener e u l)"
  shows "lock_invariant sb (dispatch_at e s t)"
  unfolding dispatch_at_def
proof (rule foldl_establishes [of _ "stage mt sb cb d" _ "lock_invariant sb" l])
  fix u :: "'n page" and k
  assume k: "k \<in> set (listeners_at t (ev_type e) s)" and u: "stage mt sb cb d u"
  from k click st have h: "page_click_handler mt sb (l_handler k)"
    using snapshot_click_handlers [of mt sb cb d s k t] by simp
  with u show "stage mt sb cb d (run_listener e u k)" by (simp add: run_listener_stage)
  assume "lock_invariant sb u"
  with h show "lock_invariant sb (run_listener e u k)" by (rule run_listener_preserves)
next
  show "l \<in> set (listeners_at t (ev_type e) s)" using mem click by simp
qed (use est st in auto)

text \<open>The three listeners of the drawer each establish the invariant when they act.\<close>

lemma doc_before_callback [simp]: "doc (before_callback l s) = doc s"
  by (simp add: before_callback_def)

lemma toggle_listener_establishes:
  "lock_invariant sb (run_listener e u
     \<lparr>l_target = Node mt, l_type = ''click'', l_handler = ToggleMenu mt sb, l_once = False\<rparr>)"
  by (simp add: run_listener_lock toggleMenu_establishes)

lemma close_listener_establishes:
  "lock_invariant sb (run_listener e u
     \<lparr>l_target = Node cb, l_type = ''click'', l_handler = CloseMenu mt sb, l_once = False\<rparr>)"
  by (simp add: run_listener_lock closeMenu_establishes)

lemma delegated_listener_establishes:
  assumes "ev_target e = Node t"
    and "closest (doc u) t (ev_ancestors e) nav_link_selector \<noteq> None \<or> t = sb"
  shows "lock_invariant sb (run_listener e u
     \<lparr>l_target = Document, l_type = ''click'', l_handler = DelegatedClick mt sb, l_once = False\<rparr>)"
  using assms by (simp add: run_listener_lock delegatedClick_establishes)

lemma drawer_listeners_at:
  assumes "stage mt sb cb d u"
  shows "\<lparr>l_target = Node mt, l_type = ''click'', l_handler = ToggleMenu mt sb, l_once = False\<rparr>
           \<in> set (listeners_at (Node mt) ''click'' u)"
    and "\<lparr>l_target = Node cb, l_type = ''click'', l_handler = CloseMenu mt sb, l_once = False\<rparr>
           \<in> set (listeners_at (Node cb) ''click'' u)"
    and "\<lparr>l_target = Document, l_type = ''click'', l_handler = DelegatedClick mt sb, l_once = False\<rparr>
           \<in> set (listeners_at Document ''click'' u)"
  using assms by (auto simp: stage_def drawer_wired_def drawer_listeners_def listeners_at_def)

text \<open>Dispatch of a whole event.\<close>

lemma dispatchEvent_stage:
  assumes "ev_type e = ''click''" and "stage mt sb cb d s"
  shows "stage mt sb cb d (dispatchEvent e s)"
  unfolding dispatchEvent_def
  by (rule foldl_preserves [of _ "stage mt sb cb d"]) (simp_all add: assms dispatch_at_stage)

lemma dispatchEvent_establishes:
  fixes s :: "('n::minus) page"
  assumes act: "drawer_action mt sb cb d e" and st: "stage mt sb cb d s"
  shows "lock_invariant sb (dispatchEvent e s)"
proof -
  from act have click: "ev_type e = ''click''" by (simp add: drawer_action_def)
  from act obtain t where t: "ev_target e = Node t"
    and cases: "mt \<in> set (t # ev_ancestors e) \<or> cb \<in> set (t # ev_ancestors e) \<or>
                closest d t (ev_ancestors e) nav_link_selector \<noteq> None \<or> t = sb"
    by (auto simp: drawer_action_def split: target.splits)
  have path: "propagation_path e = Node t # map Node (ev_ancestors e) @ [Document, Window]"
    using t by (simp add: propagation_path_def)
  have pres: "stage mt sb cb d (dispatch_at e u x)" if "stage mt sb cb d u" for u :: "'n page" and x
    using click that by (rule dispatch_at_stage)
  have inv: "lock_invariant sb (dispatch_at e u x)"
    if "stage mt sb cb d u" "lock_invariant sb u" for u :: "'n page" and x
    using click that by (rule dispatch_at_preserves)
  have via: "lock_invariant sb (dispatchEvent e s)"
    if "x0 \<in> set (propagation_path e)"
      and "\<And>u :: 'n page. stage mt sb cb d u \<Longrightarrow> lock_invariant sb (dispatch_at e u x0)" for x0
    unfolding dispatchEvent_def
    by (rule foldl_establishes [of _ "stage mt sb cb d" _ "lock_invariant sb" x0])
      (use that pres inv st in auto)
  from cases consider
      (toggle) "mt \<in> set (t # ev_ancestors e)"
    | (close) "cb \<in> set (t # ev_ancestors e)"
    | (delegated) "closest d t (ev_ancestors e) nav_link_selector \<noteq> None \<or> t = sb"
    by blast
  then show ?thesis
  proof cases
    case toggle
    then have "Node mt \<in> set (propagation_path e)" by (auto simp: path)
    moreover have "lock_invariant sb (dispatch_at e u (Node mt))" if "stage mt sb cb d u" for u :: "'n page"
      using click that drawer_listeners_at(1) [OF that] toggle_listener_establishes
      by (rule dispatch_at_establishes)
    ultimately show ?thesis by (rule via)
  next
    case close
    then have "Node cb \<in> set (propagation_path e)" by (auto simp: path)
    moreover have "lock_invariant sb (dispatch_at e u (Node cb))" if "stage mt sb cb d u" for u :: "'n page"
      using click that drawer_listeners_at(2) [OF that] close_listener_establishes
      by (rule dispatch_at_establishes)
    ultimately show ?thesis by (rule via)
  next
    case delegated
    have "Document \<in> set (propagation_path e)" by (simp add: path)
    moreover have "lock_invariant sb (dispatch_at e u Document)" if "stage mt sb cb d u" for u :: "'n page"
    proof (rule dispatch_at_establishes [OF click that drawer_listeners_at(3) [OF that]])
      fix v :: "'n page"
      assume "stage mt sb cb d v"
      then have "doc v = d" by (simp add: stage_def)
      with delegated t show "lock_invariant sb (run_listener e v
        \<lparr>l_target = Document, l_type = ''click'', l_handler = DelegatedClick mt sb, l_once = False\<rparr>)"
        by (intro delegated_listener_establishes) simp_all
    qed
    ultimately show ?thesis by (rule via)
  qed
qed

text \<open>The sample home page after the script has run.\<close>

lemma home_wired_eq:
  "home_wired = (fresh_page home_document ''complete'' False None)
     \<lparr>listeners :=
        [\<lparr>l_target = Node 1, l_type = ''click'', l_handler = ToggleMenu 1 2, l_once = False\<rparr>,
         \<lparr>l_target = Node 3, l_type = ''click'', l_handler = CloseMenu 1 2, l_once = False\<rparr>,
         \<lparr>l_target = Document, l_type = ''click'', l_handler = DelegatedClick 1 2,
            l_once = False\<rparr>,
         \<lparr>l_target = Window, l_type = ''load'', l_handler = OnLoad, l_once = False\<rparr>,
         \<lparr>l_target = Node 5, l_type = ''click'', l_handler = OnReportClick, l_once = False\<rparr>],
      timers := [(InitializeMap, 500)], perf_marks := [''app-start'']\<rparr>"
  by (simp add: home_wired_def script_def script_components_def mark_app_start_def
      defer_initialization_def wire_metrics_def wire_report_btn_def initializeMenu_def
      fresh_page_def home_document_def addEventListener_def setTimeout_def
      performance_mark_def)

lemma home_wired_listeners:
  "listeners home_wired =
     [\<lparr>l_target = Node 1, l_type = ''click'', l_handler = ToggleMenu 1 2, l_once = False\<rparr>,
      \<lparr>l_target = Node 3, l_type = ''click'', l_handler = CloseMenu 1 2, l_once = False\<rparr>,
      \<lparr>l_target = Document, l_type = ''click'', l_handler = DelegatedClick 1 2, l_once = False\<rparr>,
      \<lparr>l_target = Window, l_type = ''load'', l_handler = OnLoad, l_once = False\<rparr>,
      \<lparr>l_target = Node 5, l_type = ''click'', l_handler = OnReportClick, l_once = False\<rparr>]"
  by (simp add: home_wired_eq)

lemma home_wired_doc: "doc home_wired = home_document"
  by (simp add: home_wired_eq fresh_page_def)

text \<open>The drawer and the scroll lock after each click of the sample session.\<close>

lemma session_trace:
  "map (\<lambda>s. (drawer_open 2 s, scroll_locked s)) (states_after drawer_session home_wired) =
     [(True, True), (False, False), (False, False), (False, False), (True, True), (False, False)]"
  by (simp add: home_wired_eq drawer_session_def click_on_def dispatchEvent_def dispatch_at_def
      listeners_at_def propagation_path_def run_listener_def Let_def
      toggleMenu_def closeMenu_def delegatedClick_def closest_def nav_link_selector_def
      classList_toggle_def classList_remove_def classList_contains_def onReportClick_def
      drawer_open_def scroll_locked_def fresh_page_def home_document_def)

text \<open>
  C1. On a page where the drawer is wired, after each action of any sequence of drawer
  actions (a click on the menu trigger, on the close trigger, on a navigation link of
  the drawer, on the drawer background) the scroll lock of the body is set if and only
  if the drawer is open.
\<close>

theorem scroll_lock_mirrors_drawer:
  fixes s :: "('n::minus) page"
  assumes "drawer_wired mt sb cb s"
    and "\<forall>e \<in> set es. drawer_action mt sb cb (doc s) e"
  shows "\<forall>s' \<in> set (states_after es s). lock_invariant sb s'"
proof -
  have "\<forall>s' \<in> set (states_after es u). lock_invariant sb s'"
    if "stage mt sb cb d u" "\<forall>e \<in> set es. drawer_action mt sb cb d e"
    for u :: "'n page" and d
    using that
  proof (induction es arbitrary: u)
    case Nil
    then show ?case by simp
  next
    case (Cons e es)
    from Cons.prems have act: "drawer_action mt sb cb d e" by simp
    then have "ev_type e = ''click''" by (simp add: drawer_action_def)
    then have "stage mt sb cb d (dispatchEvent e u)"
      using Cons.prems(1) by (rule dispatchEvent_stage)
    moreover have "lock_invariant sb (dispatchEvent e u)"
      using act Cons.prems(1) by (rule dispatchEvent_establishes)
    ultimately show ?case using Cons.IH Cons.prems(2) by simp
  qed
  then show ?thesis using assms by (simp add: stage_def)
qed

theorem scroll_lock_mirrors_drawer_witness:
  "drawer_wired 1 2 3 home_wired \<and>
   list_all (drawer_action 1 2 3 (doc home_wired)) drawer_session \<and>
   list_all (lock_invariant 2) (states_after drawer_session home_wired) \<and>
   map (\<lambda>s. (drawer_open 2 s, scroll_locked s)) (states_after drawer_session home_wired) =
     [(True, True), (False, False), (False, False), (False, False), (True, True), (False, False)]"
proof -
  have a: "drawer_wired 1 2 3 home_wired"
    by (simp add: drawer_wired_def drawer_listeners_def page_click_handler_def
        home_wired_listeners)
  have b: "\<forall>e \<in> set drawer_session. drawer_action 1 2 3 (doc home_wired) e"
    by (simp add: drawer_session_def drawer_action_def click_on_def home_wired_doc
        closest_def home_document_def)
  from scroll_lock_mirrors_drawer [OF a b] a b session_trace show ?thesis
    by (simp add: list_all_iff)
qed

text \<open>
  C2, as stated, fails on the sample home page: \<open>initializeMenu\<close> registers two
  listeners that dismiss the drawer, and the one for the close trigger sits on the close
  button, not on the document; the delegated listener leaves the drawer open on a click
  on the close trigger.
\<close>

theorem single_dismissal_listener_counterexample:
  "dismissal_listeners (state_of (initializeMenu home_page)) =
     [\<lparr>l_target = Node 3, l_type = ''click'', l_handler = CloseMenu 1 2, l_once = False\<rparr>,
      \<lparr>l_target = Document, l_type = ''click'', l_handler = DelegatedClick 1 2, l_once = False\<rparr>] \<and>
   length (dismissal_listeners (state_of (initializeMenu home_page))) \<noteq> 1 \<and>
   drawer_open 2 (state_of (delegatedClick 1 2 (click_on 3 [2, 0]) (toggleMenu 1 2 home_page)))"
  by (simp add: dismissal_listeners_def initializeMenu_def addEventListener_def home_page_def
      fresh_page_def home_document_def delegatedClick_def click_on_def closest_def
      nav_link_selector_def toggleMenu_def classList_toggle_def classList_contains_def
      drawer_open_def Let_def)

text \<open>
  C2, amended. \<open>initializeMenu\<close> registers exactly two listeners that dismiss the
  drawer, whatever elements match the link selector: one on the close trigger, and one
  delegated listener on the document, which closes the drawer on a click on a
  navigation link of the drawer and on a click on the drawer background.
\<close>

theorem dismissal_listeners_constant:
  assumes "by_id (doc s) ''menuToggle'' = Some mt"
    and "by_id (doc s) ''mobileSidebar'' = Some sb"
    and "by_id (doc s) ''closeBtn'' = Some cb"
  shows "dismissal_listeners (state_of (initializeMenu (with_links m s))) =
           dismissal_listeners s @
             [\<lparr>l_target = Node cb, l_type = ''click'', l_handler = CloseMenu mt sb, l_once = False\<rparr>,
              \<lparr>l_target = Document, l_type = ''click'', l_handler = DelegatedClick mt sb,
                l_once = False\<rparr>] \<and>
         (\<forall>e t u. ev_target e = Node t \<and>
             (closest (doc u) t (ev_ancestors e) nav_link_selector \<noteq> None \<or> t = sb)
             \<longrightarrow> (\<exists>u'. delegatedClick mt sb e u = Done u' \<and> \<not> drawer_open sb u' \<and>
                       \<not> scroll_locked u'))"
proof (intro conjI allI impI)
  have "by_id (doc (with_links m s)) ''menuToggle'' = Some mt"
    and "by_id (doc (with_links m s)) ''mobileSidebar'' = Some sb"
    and "by_id (doc (with_links m s)) ''closeBtn'' = Some cb"
    using assms by (simp_all add: with_links_def)
  then show "dismissal_listeners (state_of (initializeMenu (with_links m s))) =
           dismissal_listeners s @
             [\<lparr>l_target = Node cb, l_type = ''click'', l_handler = CloseMenu mt sb, l_once = False\<rparr>,
              \<lparr>l_target = Document, l_type = ''click'', l_handler = DelegatedClick mt sb,
                l_once = False\<rparr>]"
    by (simp add: initializeMenu_wired dismissal_listeners_def drawer_listeners_def with_links_def)
next
  fix e :: event and t and u :: "'b page"
  assume "ev_target e = Node t \<and>
             (closest (doc u) t (ev_ancestors e) nav_link_selector \<noteq> None \<or> t = sb)"
  then show "\<exists>u'. delegatedClick mt sb e u = Done u' \<and> \<not> drawer_open sb u' \<and> \<not> scroll_locked u'"
    by (auto simp: delegatedClick_def Let_def closeMenu_def classList_remove_def
        drawer_open_def classList_contains_def scroll_locked_def)
qed

theorem dismissal_listeners_constant_witness:
  "by_id (doc home_page) ''menuToggle'' = Some 1 \<and>
   by_id (doc home_page) ''mobileSidebar'' = Some 2 \<and>
   by_id (doc home_page) ''closeBtn'' = Some 3 \<and>
   length (dismissal_listeners (state_of (initializeMenu (with_links (\<lambda>n sel. False) home_page)))) = 2 \<and>
   length (dismissal_listeners (state_of (initializeMenu
      (with_links (\<lambda>n sel. 5 < n \<and> sel = nav_link_selector) home_page)))) = 2 \<and>
   ev_target (click_on 7 [2, 0]) = Node 7 \<and>
   closest (doc (toggleMenu 1 2 home_page)) 7 (ev_ancestors (click_on 7 [2, 0])) nav_link_selector
     \<noteq> None \<and>
   \<not> drawer_open 2 (state_of (delegatedClick 1 2 (click_on 7 [2, 0]) (toggleMenu 1 2 home_page)))"
proof -
  have a: "by_id (doc home_page) ''menuToggle'' = Some 1"
    and b: "by_id (doc home_page) ''mobileSidebar'' = Some 2"
    and c: "by_id (doc home_page) ''closeBtn'' = Some 3"
    and d: "dismissal_listeners home_page = []"
    by (simp_all add: home_page_def fresh_page_def home_document_def dismissal_listeners_def)
  have e: "ev_target (click_on 7 [2, 0]) = Node 7"
    and f: "closest (doc (toggleMenu 1 2 home_page)) 7 (ev_ancestors (click_on 7 [2, 0]))
              nav_link_selector \<noteq> None"
    by (simp_all add: click_on_def closest_def toggleMenu_def classList_toggle_def Let_def
        home_page_def fresh_page_def home_document_def)
  note inst = dismissal_listeners_constant [OF a b c]
  have "length (dismissal_listeners (state_of (initializeMenu (with_links m home_page)))) = 2"
    for m
  proof -
    from inst [of m] have "dismissal_listeners (state_of (initializeMenu (with_links m home_page))) =
        dismissal_listeners home_page @
        [\<lparr>l_target = Node 3, l_type = ''click'', l_handler = CloseMenu 1 2, l_once = False\<rparr>,
         \<lparr>l_target = Document, l_type = ''click'', l_handler = DelegatedClick 1 2,
           l_once = False\<rparr>]"
      by (rule conjunct1)
    then show ?thesis by (simp add: d)
  qed
  moreover have "\<not> drawer_open 2
      (state_of (delegatedClick 1 2 (click_on 7 [2, 0]) (toggleMenu 1 2 home_page)))"
    using inst [of "\<lambda>n sel. False"] e f by fastforce
  ultimately show ?thesis using a b c e f by simp
qed

subsection \<open>The map\<close>

text \<open>
  C3. If the mapping library is not defined, or the document has no map container,
  \<open>initializeMap\<close> returns normally and leaves the page unchanged.
\<close>

theorem initializeMap_guard:
  "leaflet s = None \<or> by_id (doc s) ''map'' = None \<Longrightarrow> initializeMap s = Done s"
  by (auto simp: initializeMap_def split: option.splits)

theorem initializeMap_guard_witness:
  "leaflet (fresh_page home_document ''complete'' False None) = None \<and>
   by_id (doc (fresh_page home_document ''complete'' False None)) ''map'' = Some 4 \<and>
   initializeMap (fresh_page home_document ''complete'' False None) =
     Done (fresh_page home_document ''complete'' False None) \<and>
   leaflet (fresh_page no_map ''complete'' False (Some working_library)) =
     Some working_library \<and>
   by_id (doc (fresh_page no_map ''complete'' False (Some working_library))) ''map'' = None \<and>
   initializeMap (fresh_page no_map ''complete'' False (Some working_library)) =
     Done (fresh_page no_map ''complete'' False (Some working_library))"
proof -
  let ?a = "fresh_page home_document ''complete'' False None"
  let ?b = "fresh_page no_map ''complete'' False (Some working_library)"
  have a: "leaflet ?a = None" "by_id (doc ?a) ''map'' = Some 4"
    and b: "leaflet ?b = Some working_library" "by_id (doc ?b) ''map'' = None"
    by (simp_all add: fresh_page_def no_map_def without_id_def home_document_def)
  from initializeMap_guard [of ?a] initializeMap_guard [of ?b] a b
  show ?thesis by simp
qed

text \<open>
  C4. \<open>initializeMap\<close> never ends with an exception. When a call of the map, tile
  layer or marker construction throws, the exception is caught, a warning with the
  exception is written to the console, and \<open>initializeMap\<close> returns normally.
\<close>

theorem initializeMap_swallows:
  "raised (initializeMap s) = None \<and>
   (\<forall>lib m e s'. leaflet s = Some lib \<and> by_id (doc s) ''map'' = Some m \<and>
        run_library lib map_construction s = Threw e s'
        \<longrightarrow> initializeMap s = Done (console_warn ''Map initialization error:'' e s'))"
proof (intro conjI allI impI)
  show "raised (initializeMap s) = None"
  proof (cases "leaflet s")
    case None
    then show ?thesis by (simp add: initializeMap_def)
  next
    case (Some lib)
    show ?thesis
    proof (cases "by_id (doc s) ''map''")
      case None
      with Some show ?thesis by (simp add: initializeMap_def)
    next
      case (Some m)
      with \<open>leaflet s = Some lib\<close> show ?thesis
        by (cases "run_library lib map_construction s") (simp_all add: initializeMap_def)
    qed
  qed
next
  fix lib m e s'
  assume "leaflet s = Some lib \<and> by_id (doc s) ''map'' = Some m \<and>
        run_library lib map_construction s = Threw e s'"
  then show "initializeMap s = Done (console_warn ''Map initialization error:'' e s')"
    by (simp add: initializeMap_def)
qed

theorem initializeMap_swallows_witness:
  "leaflet (fresh_page home_document ''complete'' False (Some failing_tiles)) = Some failing_tiles \<and>
   by_id (doc (fresh_page home_document ''complete'' False (Some failing_tiles))) ''map'' = Some 4 \<and>
   run_library failing_tiles map_construction
       (fresh_page home_document ''complete'' False (Some failing_tiles)) =
     Threw (LibraryError ''tiles'')
       ((fresh_page home_document ''complete'' False (Some failing_tiles))
          \<lparr>lib_calls := [L_map, SetView, L_tileLayer]\<rparr>) \<and>
   initializeMap (fresh_page home_document ''complete'' False (Some failing_tiles)) =
     Done ((fresh_page home_document ''complete'' False (Some failing_tiles))
          \<lparr>lib_calls := [L_map, SetView, L_tileLayer],
           console := [Warn ''Map initialization error:'' (LibraryError ''tiles'')]\<rparr>) \<and>
   raised (initializeMap (fresh_page home_document ''complete'' False (Some failing_tiles))) = None"
proof -
  let ?s = "fresh_page home_document ''complete'' False (Some failing_tiles)"
  have a: "leaflet ?s = Some failing_tiles"
    and b: "by_id (doc ?s) ''map'' = Some 4"
    by (simp_all add: fresh_page_def home_document_def)
  have c: "run_library failing_tiles map_construction ?s =
             Threw (LibraryError ''tiles'') (?s\<lparr>lib_calls := [L_map, SetView, L_tileLayer]\<rparr>)"
    by (simp add: map_construction_def failing_tiles_def fresh_page_def)
  have d: "console_warn ''Map initialization error:'' (LibraryError ''tiles'')
             (?s\<lparr>lib_calls := [L_map, SetView, L_tileLayer]\<rparr>) =
           ?s\<lparr>lib_calls := [L_map, SetView, L_tileLayer],
              console := [Warn ''Map initialization error:'' (LibraryError ''tiles'')]\<rparr>"
    by (simp add: console_warn_def fresh_page_def)
  from initializeMap_swallows [of ?s] a b c
  have "initializeMap ?s = Done (console_warn ''Map initialization error:'' (LibraryError ''tiles'')
             (?s\<lparr>lib_calls := [L_map, SetView, L_tileLayer]\<rparr>))"
    and "raised (initializeMap ?s) = None"
    by blast+
  with a b c d show ?thesis by simp
qed

subsection \<open>Scheduling of the map initialisation\<close>

text \<open>
  When \<open>initializeMenu\<close> returns, exactly one of the two triggers is armed: the
  one-shot visibility listener when the page is hidden at \<^verbatim>\<open>DOMContentLoaded\<close>, the
  500 ms timer otherwise, and always the timer when the document was past loading.
\<close>

lemma map_scheduling_when_menu_returns:
  assumes "initializeMenu s = Done s1"
  shows "onDOMContentLoaded s =
           Done (if doc_hidden s1
                 then addEventListener Document ''visibilitychange'' InitializeMap True s1
                 else setTimeout InitializeMap 500 s1)"
    and "ready_state s \<noteq> ''loading'' \<Longrightarrow>
         defer_initialization s = Done (setTimeout InitializeMap 500 s1)"
  using assms by (simp_all add: onDOMContentLoaded_def defer_initialization_def)

text \<open>
  In terms of the two observations: from a page with neither trigger armed, the
  visibility listener is armed exactly when the page is hidden, the timer exactly when
  it is not.
\<close>

lemma initializeMenu_keeps_schedule:
  "timers (state_of (initializeMenu s)) = timers s"
  "doc_hidden (state_of (initializeMenu s)) = doc_hidden s"
  "visibility_armed (state_of (initializeMenu s)) = visibility_armed s"
  by (auto simp: initializeMenu_def addEventListener_def visibility_armed_def Let_def
      split: option.splits)

lemma exactly_one_trigger_when_menu_returns:
  assumes "raised (initializeMenu s) = None"
    and "\<not> timer_armed s" and "\<not> visibility_armed s"
  shows "visibility_armed (state_of (onDOMContentLoaded s)) = doc_hidden s"
    and "timer_armed (state_of (onDOMContentLoaded s)) = (\<not> doc_hidden s)"
    and "ready_state s \<noteq> ''loading'' \<Longrightarrow>
           timer_armed (state_of (defer_initialization s)) \<and>
           \<not> visibility_armed (state_of (defer_initialization s))"
proof -
  from assms(1) obtain s1 where s1: "initializeMenu s = Done s1"
    by (cases "initializeMenu s") simp_all
  with initializeMenu_keeps_schedule [of s] assms(2,3)
  have keep: "timers s1 = timers s" "doc_hidden s1 = doc_hidden s" "\<not> visibility_armed s1"
    "\<not> timer_armed s1"
    by (simp_all add: timer_armed_def)
  from keep s1 show "visibility_armed (state_of (onDOMContentLoaded s)) = doc_hidden s"
    by (auto simp: onDOMContentLoaded_def visibility_armed_def addEventListener_def
        setTimeout_def)
  from keep s1 show "timer_armed (state_of (onDOMContentLoaded s)) = (\<not> doc_hidden s)"
    by (auto simp: onDOMContentLoaded_def timer_armed_def addEventListener_def setTimeout_def)
  from keep s1 show "timer_armed (state_of (defer_initialization s)) \<and>
           \<not> visibility_armed (state_of (defer_initialization s))"
    if "ready_state s \<noteq> ''loading''"
    using that
    by (auto simp: defer_initialization_def timer_armed_def visibility_armed_def setTimeout_def)
qed

text \<open>
  C5 does not hold on a page that has the menu trigger and the drawer but no close
  button: \<open>initializeMenu\<close> throws before the scheduling statements are reached, so
  neither the timer nor the visibility listener is armed, with the document loading
  (inside the \<^verbatim>\<open>DOMContentLoaded\<close> callback) and with the document complete (where the
  script itself stops).
\<close>

theorem map_never_scheduled_without_closeBtn:
  "\<not> timer_armed (dispatchEvent dom_content_loaded (state_of (script no_close_loading))) \<and>
   \<not> visibility_armed (dispatchEvent dom_content_loaded (state_of (script no_close_loading))) \<and>
   uncaught (dispatchEvent dom_content_loaded (state_of (script no_close_loading))) =
     [TypeError ''Cannot read properties of null (reading addEventListener)''] \<and>
   \<not> timer_armed (state_of (script no_close_complete)) \<and>
   \<not> visibility_armed (state_of (script no_close_complete)) \<and>
   raised (script no_close_complete) =
     Some (TypeError ''Cannot read properties of null (reading addEventListener)'')"
  by (simp add: timer_armed_def visibility_armed_def no_close_loading_def no_close_complete_def
      script_def script_components_def mark_app_start_def defer_initialization_def
      wire_metrics_def wire_report_btn_def initializeMenu_def onDOMContentLoaded_def
      fresh_page_def no_close_button_def without_id_def home_document_def addEventListener_def
      performance_mark_def dispatchEvent_def dispatch_at_def listeners_at_def
      propagation_path_def run_listener_def dom_content_loaded_def Let_def)

subsection \<open>The load-timing report\<close>

text \<open>
  C7. When the load callback finds a navigation-timing entry, it logs one report with
  exactly six fields, in this order and under these names, each the difference of the
  two fields of the entry given in the source: DNS, TCP, Request, Response,
  DOM Processing, Total Load Time (load event end minus fetch start).
\<close>

theorem onLoad_report:
  assumes "performance s = Some p" and "perf_mark p" and "perf_measure p"
    and "''app-start'' \<in> set (perf_marks s)"
    and "navigation_entries p = perfData # rest"
  shows "raised (onLoad s) = None \<and>
         console (state_of (onLoad s)) = console s @
           [Log ''Performance Metrics:''
              [(''DNS'', domainLookupEnd perfData - domainLookupStart perfData),
               (''TCP'', connectEnd perfData - connectStart perfData),
               (''Request'', responseStart perfData - requestStart perfData),
               (''Response'', responseEnd perfData - responseStart perfData),
               (''DOM Processing'', domComplete perfData - domLoading perfData),
               (''Total Load Time'', loadEventEnd perfData - fetchStart perfData)]]"
  using assms
  by (simp add: onLoad_def performance_mark_def performance_measure_def console_log_def
        performance_metrics_def)

theorem onLoad_report_witness:
  "performance (state_of (mark_app_start (fresh_page home_document ''complete'' False None))) =
     Some \<lparr>perf_mark = True, perf_measure = True, navigation_entries = [sample_timing]\<rparr> \<and>
   ''app-start'' \<in> set (perf_marks (state_of (mark_app_start (fresh_page home_document ''complete'' False None)))) \<and>
   raised (onLoad (state_of (mark_app_start (fresh_page home_document ''complete'' False None)))) = None \<and>
   console (state_of (onLoad (state_of (mark_app_start (fresh_page home_document ''complete'' False None))))) =
     [Log ''Performance Metrics:''
        [(''DNS'', 4), (''TCP'', 11), (''Request'', 27), (''Response'', 12),
         (''DOM Processing'', 245), (''Total Load Time'', - 2)]]"
proof -
  let ?s = "state_of (mark_app_start (fresh_page home_document ''complete'' False None))"
  let ?p = "\<lparr>perf_mark = True, perf_measure = True, navigation_entries = [sample_timing]\<rparr>"
  have a: "performance ?s = Some ?p"
    and b: "''app-start'' \<in> set (perf_marks ?s)"
    and c: "console ?s = []"
    by (simp_all add: mark_app_start_def fresh_page_def performance_mark_def)
  have "raised (onLoad ?s) = None \<and>
         console (state_of (onLoad ?s)) = console ?s @
           [Log ''Performance Metrics:''
              [(''DNS'', domainLookupEnd sample_timing - domainLookupStart sample_timing),
               (''TCP'', connectEnd sample_timing - connectStart sample_timing),
               (''Request'', responseStart sample_timing - requestStart sample_timing),
               (''Response'', responseEnd sample_timing - responseStart sample_timing),
               (''DOM Processing'', domComplete sample_timing - domLoading sample_timing),
               (''Total Load Time'', loadEventEnd sample_timing - fetchStart sample_timing)]]"
    by (rule onLoad_report [where rest = "[]", OF a _ _ b]) simp_all
  then show ?thesis using a b c by (simp add: sample_timing_def)
qed

subsection \<open>The report button\<close>

text \<open>No statement before the report button changes the document.\<close>

lemma initializeMenu_doc: "doc (state_of (initializeMenu u)) = doc u"
  by (simp add: initializeMenu_def addEventListener_def Let_def split: option.splits)

lemma defer_initialization_doc: "doc (state_of (defer_initialization u)) = doc u"
proof (cases "initializeMenu u")
  case (Done u1)
  with initializeMenu_doc [of u] show ?thesis
    by (simp add: defer_initialization_def addEventListener_def setTimeout_def)
next
  case (Threw err u1)
  with initializeMenu_doc [of u] show ?thesis
    by (simp add: defer_initialization_def addEventListener_def)
qed

lemma script_components_doc: "doc (state_of (script_components s)) = doc s"
proof -
  obtain s1 where s1: "mark_app_start s = Done s1" and d1: "doc s1 = doc s"
    by (simp add: mark_app_start_def performance_mark_def split: option.splits)
  have d2: "doc (state_of (defer_initialization s1)) = doc s"
    using d1 by (simp add: defer_initialization_doc)
  show ?thesis
  proof (cases "defer_initialization s1")
    case (Done s2)
    with d2 s1 show ?thesis
      by (simp add: script_components_def wire_metrics_def addEventListener_def
          split: option.splits)
  next
    case (Threw err s2)
    with d2 s1 show ?thesis by (simp add: script_components_def)
  qed
qed

text \<open>
  C8. When no element matches the selector of the report button, the page the script
  leaves behind is exactly the page left by the three other components (the start
  mark, the drawer and map scheduling, the wiring of the load report): the failing
  statement is the last one and changes nothing.
\<close>

theorem missing_report_button_spares_components:
  assumes "by_selector (doc s) ''.issue-report-btn'' = None"
  shows "state_of (script s) = state_of (script_components s)"
proof (cases "script_components s")
  case (Done u)
  with script_components_doc [of s] have "doc u = doc s" by simp
  with assms Done show ?thesis by (simp add: script_def wire_report_btn_def)
next
  case (Threw err u)
  then show ?thesis by (simp add: script_def)
qed

theorem missing_report_button_spares_components_witness:
  "by_selector (doc no_report_page) ''.issue-report-btn'' = None \<and>
   state_of (script no_report_page) = state_of (script_components no_report_page) \<and>
   listeners (state_of (script no_report_page)) =
     drawer_listeners 1 2 3 @
     [\<lparr>l_target = Window, l_type = ''load'', l_handler = OnLoad, l_once = False\<rparr>] \<and>
   timers (state_of (script no_report_page)) = [(InitializeMap, 500)] \<and>
   perf_marks (state_of (script no_report_page)) = [''app-start'']"
proof -
  have a: "by_selector (doc no_report_page) ''.issue-report-btn'' = None"
    by (simp add: no_report_page_def no_report_button_def fresh_page_def)
  have b: "listeners (state_of (script_components no_report_page)) =
             drawer_listeners 1 2 3 @
             [\<lparr>l_target = Window, l_type = ''load'', l_handler = OnLoad, l_once = False\<rparr>]"
    and c: "timers (state_of (script_components no_report_page)) = [(InitializeMap, 500)]"
    and d: "perf_marks (state_of (script_components no_report_page)) = [''app-start'']"
    by (simp_all add: no_report_page_def no_report_button_def script_components_def
        mark_app_start_def defer_initialization_def wire_metrics_def initializeMenu_def
        fresh_page_def home_document_def addEventListener_def setTimeout_def
        drawer_listeners_def performance_mark_def)
  from missing_report_button_spares_components [OF a] a b c d show ?thesis by simp
qed

text \<open>
  The script itself ends with the TypeError of that last statement, and with the
  document loading the other components run when \<^verbatim>\<open>DOMContentLoaded\<close> arrives.
\<close>

lemma missing_report_button_raises:
  assumes "by_selector (doc s) ''.issue-report-btn'' = None"
    and "script_components s = Done u"
  shows "script s =
           Threw (TypeError ''Cannot read properties of null (reading addEventListener)'') u"
proof -
  from assms(2) script_components_doc [of s] have "doc u = doc s" by simp
  with assms show ?thesis by (simp add: script_def wire_report_btn_def)
qed

lemma components_run_after_DOMContentLoaded:
  "listeners (dispatchEvent dom_content_loaded (state_of (script no_report_loading))) =
     [\<lparr>l_target = Document, l_type = ''DOMContentLoaded'', l_handler = OnDOMContentLoaded,
        l_once = False\<rparr>,
      \<lparr>l_target = Window, l_type = ''load'', l_handler = OnLoad, l_once = False\<rparr>] @
     drawer_listeners 1 2 3 \<and>
   timers (dispatchEvent dom_content_loaded (state_of (script no_report_loading))) =
     [(InitializeMap, 500)]"
  by (simp add: no_report_loading_def no_report_button_def
      script_def script_components_def mark_app_start_def defer_initialization_def
      wire_metrics_def wire_report_btn_def initializeMenu_def onDOMContentLoaded_def
      fresh_page_def home_document_def addEventListener_def setTimeout_def drawer_listeners_def
      performance_mark_def dispatchEvent_def dispatch_at_def listeners_at_def
      propagation_path_def run_listener_def dom_content_loaded_def Let_def)

end
